theory Spec2Isabelle
  imports Main
begin

section \<open>Connector health checks of the team portal\<close>

text \<open>
  The development embeds \<^verbatim>\<open>team-portal/app/api/status/route.js\<close>: the helper
  \<^verbatim>\<open>fetchWithTimeout\<close> and the route handler \<^verbatim>\<open>GET\<close>, which probes every
  connector of \<^verbatim>\<open>data/connectors.json\<close> and answers with the list of results.
\<close>

subsection \<open>Data\<close>

text \<open>
  An entry of \<^verbatim>\<open>connectors.json\<close>. The handler reads the fields \<^verbatim>\<open>id\<close>,
  \<^verbatim>\<open>name\<close> and \<^verbatim>\<open>url\<close> only.
\<close>

record connector =
  conn_id :: string
  conn_name :: string
  conn_url :: string

text \<open>
  The platform's \<^verbatim>\<open>Response\<close> as far as the helper looks at it. \<^verbatim>\<open>res.ok\<close> is
  not stored: the Fetch standard defines it as "the status is in the range 200 to 299".
\<close>

record response =
  status :: nat

definition response_ok :: "response \<Rightarrow> bool" where
  "response_ok res = (200 \<le> status res \<and> status res \<le> 299)"

text \<open>The object \<^verbatim>\<open>fetchWithTimeout\<close> returns.\<close>

record probe_result =
  pr_ok :: bool
  pr_status_code :: nat
  pr_latency_ms :: int

text \<open>
  An element of \<^verbatim>\<open>items\<close>. \<^verbatim>\<open>null\<close> is \<open>None\<close>. \<^verbatim>\<open>checked_at\<close> holds the
  instant that \<^verbatim>\<open>new Date()\<close> reads, in milliseconds; its rendering as an ISO string is
  left out.
\<close>

record item =
  item_id :: string
  item_name :: string
  item_url :: string
  ok :: bool
  status_code :: "nat option"
  latency_ms :: "int option"
  checked_at :: int

record report =
  items :: "item list"

text \<open>What a rejected promise carries: \<^verbatim>\<open>fetch\<close> rejects with a
  \<^verbatim>\<open>TypeError\<close> on a network failure and with an \<^verbatim>\<open>AbortError\<close> when its signal
  is aborted.\<close>

datatype error = TypeError | AbortError

subsection \<open>The environment\<close>

text \<open>
  What the remote end does with one request: it answers with a status after some
  milliseconds, the connection fails after some milliseconds (refused, DNS, TLS), or
  nothing ever comes back. The network is any function from the instant of the call and
  the URL to such an outcome.
\<close>

datatype outcome = Responds nat nat | Fails nat | Hangs

type_synonym network = "int \<Rightarrow> string \<Rightarrow> outcome"

text \<open>
  The effects of the handler are recorded in a world. The field \<open>clock\<close> is the time in
  milliseconds: it only moves forward, by the time spent waiting, and the timers and the
  network follow it. The field \<open>wall\<close> is the wall clock: it gives the reading of
  \<^verbatim>\<open>Date.now()\<close> at every time, and it is any function of the time, so that the wall
  clock may be set back or forward while a request is pending. The handler never changes
  it. The field \<open>trace\<close> holds the calls made to the platform, in the order they happen.
\<close>

datatype event =
    TimerSet nat
  | FetchCalled string
  | Aborted string
  | FetchSettled string
  | TimerCleared

record world =
  clock :: int
  wall :: "int \<Rightarrow> int"
  trace :: "event list"

definition Date_now :: "world \<Rightarrow> int" where
  "Date_now w = wall w (clock w)"

definition emit :: "event list \<Rightarrow> world \<Rightarrow> world" where
  "emit es w = w\<lparr>trace := trace w @ es\<rparr>"

definition wait :: "nat \<Rightarrow> world \<Rightarrow> world" where
  "wait d w = w\<lparr>clock := clock w + int d\<rparr>"

text \<open>
  \<^verbatim>\<open>fetch(url, { signal })\<close> where the signal is aborted \<open>deadline\<close> milliseconds after
  the call (the timer of \<^verbatim>\<open>fetchWithTimeout\<close>). The promise settles with whatever
  comes first: an outcome that arrives before the deadline, or the abort.
\<close>

definition fetch :: "network \<Rightarrow> string \<Rightarrow> nat \<Rightarrow> world \<Rightarrow> (error + response) \<times> world" where
  "fetch net url deadline w =
     (let w1 = emit [FetchCalled url] w;
          aborted = (Inl AbortError, emit [Aborted url, FetchSettled url] (wait deadline w1))
      in case net (clock w) url of
           Responds d st \<Rightarrow>
             if d < deadline
             then (Inr \<lparr>status = st\<rparr>, emit [FetchSettled url] (wait d w1))
             else aborted
         | Fails d \<Rightarrow>
             if d < deadline
             then (Inl TypeError, emit [FetchSettled url] (wait d w1))
             else aborted
         | Hangs \<Rightarrow> aborted)"

subsection \<open>The route\<close>

text \<open>
  \<^verbatim>\<open>fetchWithTimeout(url, timeoutMs = 4000)\<close>: the argument is \<open>None\<close> when the caller
  leaves it out. The \<^verbatim>\<open>finally\<close> block clears the timer on both paths; an error of
  \<^verbatim>\<open>fetch\<close> then leaves the function.
\<close>

definition fetchWithTimeout ::
  "network \<Rightarrow> string \<Rightarrow> nat option \<Rightarrow> world \<Rightarrow> (error + probe_result) \<times> world" where
  "fetchWithTimeout net url timeoutMs w =
     (let ms = (case timeoutMs of None \<Rightarrow> 4000 | Some t \<Rightarrow> t);
          w1 = emit [TimerSet ms] w;
          start = Date_now w1
      in case fetch net url ms w1 of
           (Inr res, w2) \<Rightarrow>
             (let latencyMs = Date_now w2 - start
              in (Inr \<lparr>pr_ok = response_ok res, pr_status_code = status res,
                       pr_latency_ms = latencyMs\<rparr>,
                  emit [TimerCleared] w2))
         | (Inl err, w2) \<Rightarrow> (Inl err, emit [TimerCleared] w2))"

text \<open>\<^verbatim>\<open>url.replace(/\/$/, "")\<close>: one slash is removed when it is the last character.\<close>

definition strip_trailing_slash :: "string \<Rightarrow> string" where
  "strip_trailing_slash s = (if s \<noteq> [] \<and> last s = CHR ''/'' then butlast s else s)"

definition healthUrl :: "connector \<Rightarrow> string" where
  "healthUrl connector = strip_trailing_slash (conn_url connector) @ ''/health''"

text \<open>
  The body of the loop: the \<^verbatim>\<open>try\<close> block builds the item from the result, the
  \<^verbatim>\<open>catch\<close> block builds the item of a failed probe.
\<close>

definition probe :: "network \<Rightarrow> connector \<Rightarrow> world \<Rightarrow> item \<times> world" where
  "probe net connector w =
     (case fetchWithTimeout net (healthUrl connector) None w of
        (Inr result, w') \<Rightarrow>
          (\<lparr>item_id = conn_id connector, item_name = conn_name connector,
            item_url = conn_url connector, ok = pr_ok result,
            status_code = Some (pr_status_code result),
            latency_ms = Some (pr_latency_ms result), checked_at = Date_now w'\<rparr>, w')
      | (Inl err, w') \<Rightarrow>
          (\<lparr>item_id = conn_id connector, item_name = conn_name connector,
            item_url = conn_url connector, ok = False,
            status_code = None, latency_ms = None, checked_at = Date_now w'\<rparr>, w'))"

text \<open>\<^verbatim>\<open>for (const connector of connectors)\<close>, pushing one item per round.\<close>

fun GET_loop :: "network \<Rightarrow> connector list \<Rightarrow> item list \<Rightarrow> world \<Rightarrow> item list \<times> world" where
  "GET_loop net [] its w = (its, w)"
| "GET_loop net (connector # rest) its w =
     (case probe net connector w of (it, w') \<Rightarrow> GET_loop net rest (its @ [it]) w')"

text \<open>
  The handler. It is an \<^verbatim>\<open>async\<close> function, so its result is a promise that is
  fulfilled (\<open>Inr\<close>) or rejected (\<open>Inl\<close>); the imported \<^verbatim>\<open>connectors\<close> are a
  parameter.
\<close>

definition GET :: "network \<Rightarrow> connector list \<Rightarrow> world \<Rightarrow> (error + report) \<times> world" where
  "GET net connectors w =
     (case GET_loop net connectors [] w of (its, w') \<Rightarrow> (Inr \<lparr>items = its\<rparr>, w'))"

subsection \<open>Reading a trace\<close>

text \<open>The URLs handed to \<^verbatim>\<open>fetch\<close>, in order.\<close>

fun requests :: "event list \<Rightarrow> string list" where
  "requests [] = []"
| "requests (FetchCalled url # es) = url # requests es"
| "requests (e # es) = requests es"

text \<open>
  The number of requests in flight after a run of events that starts with \<open>n\<close> of them,
  and the largest number reached on the way.
\<close>

fun in_flight :: "nat \<Rightarrow> event list \<Rightarrow> nat" where
  "in_flight n [] = n"
| "in_flight n (FetchCalled url # es) = in_flight (Suc n) es"
| "in_flight n (FetchSettled url # es) = in_flight (n - 1) es"
| "in_flight n (e # es) = in_flight n es"

fun peak_in_flight :: "nat \<Rightarrow> event list \<Rightarrow> nat" where
  "peak_in_flight n [] = n"
| "peak_in_flight n (FetchCalled url # es) = max n (peak_in_flight (Suc n) es)"
| "peak_in_flight n (FetchSettled url # es) = max n (peak_in_flight (n - 1) es)"
| "peak_in_flight n (e # es) = max n (peak_in_flight n es)"

subsection \<open>Sample inputs\<close>

text \<open>
  A world in which nothing has happened yet and whose wall clock shows the time, and two
  connectors.
\<close>

definition true_clock :: "int \<Rightarrow> int" where
  "true_clock t = t"

definition world0 :: world where
  "world0 = \<lparr>clock = 0, wall = true_clock, trace = []\<rparr>"



definition conn_a :: connector where
  "conn_a = \<lparr>conn_id = ''a'', conn_name = ''Alpha'', conn_url = ''https://a.example/''\<rparr>"

definition conn_b :: connector where
  "conn_b = \<lparr>conn_id = ''b'', conn_name = ''Beta'', conn_url = ''https://b.example''\<rparr>"

text \<open>The first connector answers slowly, the second at once.\<close>

definition net_slow_first :: network where
  "net_slow_first t url =
     (if url = ''https://a.example/health'' then Responds 3000 200 else Responds 5 200)"

text \<open>Every request is answered with 404, with 200, or with 304.\<close>

definition net_404 :: network where
  "net_404 t url = Responds 25 404"



text \<open>The first connector never answers, the connection to any other fails.\<close>

definition net_down :: network where
  "net_down t url = (if url = ''https://a.example/health'' then Hangs else Fails 7)"


text \<open>No connector ever answers.\<close>

definition net_hang :: network where
  "net_hang t url = Hangs"

section \<open>Auxiliary facts\<close>

subsection \<open>The three ways a call of the helper ends\<close>

lemma default_timeout:
  "fetchWithTimeout net url None w = fetchWithTimeout net url (Some 4000) w"
  by (simp add: fetchWithTimeout_def)

lemma fetchWithTimeout_answered:
  assumes "net (clock w) url = Responds d st" and "d < ms"
  shows "fetchWithTimeout net url (Some ms) w =
    (Inr \<lparr>pr_ok = (200 \<le> st \<and> st \<le> 299), pr_status_code = st,
          pr_latency_ms = wall w (clock w + int d) - wall w (clock w)\<rparr>,
     w\<lparr>clock := clock w + int d,
      trace := trace w @ [TimerSet ms, FetchCalled url, FetchSettled url, TimerCleared]\<rparr>)"
  using assms
  by (simp add: fetchWithTimeout_def fetch_def emit_def wait_def Date_now_def response_ok_def Let_def)

lemma fetchWithTimeout_failed:
  assumes "net (clock w) url = Fails d" and "d < ms"
  shows "fetchWithTimeout net url (Some ms) w =
    (Inl TypeError,
     w\<lparr>clock := clock w + int d,
      trace := trace w @ [TimerSet ms, FetchCalled url, FetchSettled url, TimerCleared]\<rparr>)"
  using assms
  by (simp add: fetchWithTimeout_def fetch_def emit_def wait_def Date_now_def Let_def)

lemma fetchWithTimeout_expired:
  assumes "case net (clock w) url of Responds d st \<Rightarrow> ms \<le> d | Fails d \<Rightarrow> ms \<le> d | Hangs \<Rightarrow> True"
  shows "fetchWithTimeout net url (Some ms) w =
    (Inl AbortError,
     w\<lparr>clock := clock w + int ms,
      trace := trace w @ [TimerSet ms, FetchCalled url, Aborted url, FetchSettled url, TimerCleared]\<rparr>)"
  using assms
  by (simp add: fetchWithTimeout_def fetch_def emit_def wait_def Date_now_def Let_def split: outcome.splits)

subsection \<open>The three ways a round of the loop ends\<close>

lemma probe_answered:
  assumes "net (clock w) (healthUrl c) = Responds d st" and "d < 4000"
  shows "probe net c w =
    (\<lparr>item_id = conn_id c, item_name = conn_name c, item_url = conn_url c,
      ok = (200 \<le> st \<and> st \<le> 299), status_code = Some st,
      latency_ms = Some (wall w (clock w + int d) - wall w (clock w)),
      checked_at = wall w (clock w + int d)\<rparr>,
     w\<lparr>clock := clock w + int d,
      trace := trace w @ [TimerSet 4000, FetchCalled (healthUrl c),
                         FetchSettled (healthUrl c), TimerCleared]\<rparr>)"
  using assms by (simp add: probe_def Date_now_def default_timeout fetchWithTimeout_answered)

lemma probe_failed:
  assumes "net (clock w) (healthUrl c) = Fails d" and "d < 4000"
  shows "probe net c w =
    (\<lparr>item_id = conn_id c, item_name = conn_name c, item_url = conn_url c,
      ok = False, status_code = None, latency_ms = None,
      checked_at = wall w (clock w + int d)\<rparr>,
     w\<lparr>clock := clock w + int d,
      trace := trace w @ [TimerSet 4000, FetchCalled (healthUrl c),
                         FetchSettled (healthUrl c), TimerCleared]\<rparr>)"
  using assms by (simp add: probe_def Date_now_def default_timeout fetchWithTimeout_failed)

lemma probe_expired:
  assumes "case net (clock w) (healthUrl c) of
             Responds d st \<Rightarrow> 4000 \<le> d | Fails d \<Rightarrow> 4000 \<le> d | Hangs \<Rightarrow> True"
  shows "probe net c w =
    (\<lparr>item_id = conn_id c, item_name = conn_name c, item_url = conn_url c,
      ok = False, status_code = None, latency_ms = None,
      checked_at = wall w (clock w + 4000)\<rparr>,
     w\<lparr>clock := clock w + 4000,
      trace := trace w @ [TimerSet 4000, FetchCalled (healthUrl c), Aborted (healthUrl c),
                         FetchSettled (healthUrl c), TimerCleared]\<rparr>)"
  using assms by (simp add: probe_def Date_now_def default_timeout fetchWithTimeout_expired)

lemma probe_id: "item_id (fst (probe net c w)) = conn_id c"
  by (simp add: probe_def split: prod.splits sum.splits)


lemma probe_wall: "wall (snd (probe net c w)) = wall w"
  by (simp add: probe_def fetchWithTimeout_def fetch_def emit_def wait_def Let_def
      split: outcome.splits)



lemma probe_not_ok:
  assumes "\<forall>t. case net t (healthUrl c) of
             Responds d st \<Rightarrow> 4000 \<le> d \<or> st < 200 \<or> 299 < st | Fails d \<Rightarrow> True | Hangs \<Rightarrow> True"
  shows "ok (fst (probe net c w)) = False"
proof (cases "net (clock w) (healthUrl c)")
  case (Responds d st)
  from assms have "case net (clock w) (healthUrl c) of
      Responds d st \<Rightarrow> 4000 \<le> d \<or> st < 200 \<or> 299 < st | Fails d \<Rightarrow> True | Hangs \<Rightarrow> True" ..
  with Responds have f: "4000 \<le> d \<or> st < 200 \<or> 299 < st" by simp
  show ?thesis
  proof (cases "d < 4000")
    case True
    with f Responds show ?thesis by (auto simp: probe_answered)
  next
    case False
    with Responds show ?thesis by (simp add: probe_expired)
  qed
next
  case (Fails d)
  then show ?thesis by (cases "d < 4000") (simp_all add: probe_failed probe_expired)
next
  case Hangs
  then show ?thesis by (simp add: probe_expired)
qed

subsection \<open>The loop relates every connector to its item\<close>

lemma GET_loop_all2:
  assumes "\<And>c w'. c \<in> set cs \<Longrightarrow> wall (w' :: world) = wall w \<Longrightarrow> Q c (fst (probe net c w'))"
  shows "\<exists>new. fst (GET_loop net cs its w) = its @ new \<and> list_all2 Q cs new"
  using assms
proof (induction cs arbitrary: its w)
  case Nil
  then show ?case by simp
next
  case (Cons c cs)
  obtain it w' where p: "probe net c w = (it, w')" by (cases "probe net c w")
  have q: "Q c it" using Cons.prems [of c w] p by simp
  have e: "wall w' = wall w" using probe_wall [of net c w] p by simp
  have "\<And>c' w''. c' \<in> set cs \<Longrightarrow> wall (w'' :: world) = wall w' \<Longrightarrow>
      Q c' (fst (probe net c' w''))"
    using Cons.prems e by simp
  from Cons.IH [OF this, where its = "its @ [it]"]
  obtain new where n: "fst (GET_loop net cs (its @ [it]) w') = (its @ [it]) @ new"
    and a: "list_all2 Q cs new" by blast
  have "fst (GET_loop net (c # cs) its w) = its @ (it # new)" using p n by simp
  moreover have "list_all2 Q (c # cs) (it # new)" using q a by simp
  ultimately show ?case by blast
qed

lemma GET_returns:
  "GET net cs w = (Inr \<lparr>items = fst (GET_loop net cs [] w)\<rparr>, snd (GET_loop net cs [] w))"
  by (simp add: GET_def split: prod.splits)

lemma GET_all2:
  assumes "\<And>c w'. c \<in> set cs \<Longrightarrow> wall (w' :: world) = wall w \<Longrightarrow> Q c (fst (probe net c w'))"
  shows "\<exists>rep w'. GET net cs w = (Inr rep, w') \<and> list_all2 Q cs (items rep)"
proof -
  from GET_loop_all2 [of cs w Q net "[]", OF assms]
  obtain new where "fst (GET_loop net cs [] w) = new" and "list_all2 Q cs new" by auto
  then show ?thesis by (simp add: GET_returns)
qed

subsection \<open>Traces\<close>

lemma requests_append: "requests (xs @ ys) = requests xs @ requests ys"
  by (induction xs rule: requests.induct) simp_all

lemma in_flight_append: "in_flight n (xs @ ys) = in_flight (in_flight n xs) ys"
  by (induction n xs rule: in_flight.induct) simp_all

lemma peak_in_flight_ge: "n \<le> peak_in_flight n es"
  by (induction n es rule: peak_in_flight.induct) simp_all

lemma peak_in_flight_append:
  "peak_in_flight n (xs @ ys) = max (peak_in_flight n xs) (peak_in_flight (in_flight n xs) ys)"
proof (induction n xs rule: peak_in_flight.induct)
  case (1 n)
  show ?case using peak_in_flight_ge [of n ys] by simp
qed (simp_all add: max.assoc)

lemma probe_trace:
  "\<exists>seg. trace (snd (probe net c w)) = trace w @ seg \<and> requests seg = [healthUrl c] \<and>
         in_flight 0 seg = 0 \<and> peak_in_flight 0 seg = 1"
proof (cases "net (clock w) (healthUrl c)")
  case (Responds d st)
  then show ?thesis by (cases "d < 4000") (simp_all add: probe_answered probe_expired)
next
  case (Fails d)
  then show ?thesis by (cases "d < 4000") (simp_all add: probe_failed probe_expired)
next
  case Hangs
  then show ?thesis by (simp add: probe_expired)
qed

lemma probe_requests: "requests (trace (snd (probe net c w))) = requests (trace w) @ [healthUrl c]"
  using probe_trace [of net c w] by (auto simp: requests_append)

lemma GET_loop_trace:
  assumes "in_flight 0 (trace w) = 0" and "peak_in_flight 0 (trace w) \<le> 1"
  shows "requests (trace (snd (GET_loop net cs its w))) = requests (trace w) @ map healthUrl cs \<and>
         in_flight 0 (trace (snd (GET_loop net cs its w))) = 0 \<and>
         peak_in_flight 0 (trace (snd (GET_loop net cs its w))) \<le> 1"
  using assms
proof (induction cs arbitrary: its w)
  case Nil
  then show ?case by simp
next
  case (Cons c cs)
  obtain it w' where p: "probe net c w = (it, w')" by (cases "probe net c w")
  from probe_trace [of net c w] p obtain seg where
    t: "trace w' = trace w @ seg" and r: "requests seg = [healthUrl c]"
    and f: "in_flight 0 seg = 0" and k: "peak_in_flight 0 seg = 1" by auto
  have f': "in_flight 0 (trace w') = 0"
    using t f Cons.prems(1) by (simp add: in_flight_append)
  have k': "peak_in_flight 0 (trace w') \<le> 1"
    using t k Cons.prems by (simp add: peak_in_flight_append)
  from Cons.IH [OF f' k', of "its @ [it]"] p t r show ?case
    by (simp add: requests_append)
qed

lemma strip_trailing_slash_snoc: "strip_trailing_slash (b @ ''/'') = b"
  by (simp add: strip_trailing_slash_def)

subsection \<open>The sample inputs, evaluated\<close>

lemma world0_simps: "clock world0 = 0" "trace world0 = []" "wall world0 t = t"
  by (simp_all add: world0_def true_clock_def)


lemma conn_a_simps:
  "conn_id conn_a = ''a''" "conn_name conn_a = ''Alpha''" "conn_url conn_a = ''https://a.example/''"
  by (simp_all add: conn_a_def)

lemma conn_b_simps:
  "conn_id conn_b = ''b''" "conn_name conn_b = ''Beta''" "conn_url conn_b = ''https://b.example''"
  by (simp_all add: conn_b_def)

lemma health_a: "healthUrl conn_a = ''https://a.example/health''"
  by (simp add: healthUrl_def strip_trailing_slash_def conn_a_def)

lemma health_b: "healthUrl conn_b = ''https://b.example/health''"
  by (simp add: healthUrl_def strip_trailing_slash_def conn_b_def)


lemma GET_down:
  "GET net_down [conn_a, conn_b] world0 =
     (Inr \<lparr>items = [\<lparr>item_id = ''a'', item_name = ''Alpha'', item_url = ''https://a.example/'',
                      ok = False, status_code = None, latency_ms = None,
                      checked_at = 4000\<rparr>,
                    \<lparr>item_id = ''b'', item_name = ''Beta'', item_url = ''https://b.example'',
                      ok = False, status_code = None, latency_ms = None,
                      checked_at = 4007\<rparr>]\<rparr>,
      world0\<lparr>clock := 4007,
       trace := [TimerSet 4000, FetchCalled ''https://a.example/health'',
                Aborted ''https://a.example/health'',
                FetchSettled ''https://a.example/health'', TimerCleared,
                TimerSet 4000, FetchCalled ''https://b.example/health'',
                FetchSettled ''https://b.example/health'', TimerCleared]\<rparr>)"
  by (simp add: GET_def probe_expired probe_failed [where d = 7] net_down_def health_a health_b
      world0_simps conn_a_simps conn_b_simps)


section \<open>The claims\<close>

subsection \<open>C1: the items are in registry order\<close>

text \<open>
  C1. Whatever the network does, and so whichever connector answers first, the item at
  index \<open>i\<close> of the report carries the id of the connector at index \<open>i\<close> of the
  registry.
\<close>

theorem GET_items_in_registry_order:
  assumes "i < length connectors"
  shows "\<exists>rep w'. GET net connectors w = (Inr rep, w') \<and>
           item_id (items rep ! i) = conn_id (connectors ! i)"
proof -
  have "\<exists>rep w'. GET net connectors w = (Inr rep, w') \<and>
          list_all2 (\<lambda>c it. item_id it = conn_id c) connectors (items rep)"
    by (rule GET_all2) (simp add: probe_id)
  then obtain rep w' where g: "GET net connectors w = (Inr rep, w')"
    and a: "list_all2 (\<lambda>c it. item_id it = conn_id c) connectors (items rep)" by blast
  have "item_id (items rep ! i) = conn_id (connectors ! i)"
    using list_all2_nthD [OF a assms] by simp
  with g show ?thesis by blast
qed

text \<open>
  The theorem at a registry whose slowest connector comes first: the second item is the
  second connector's.
\<close>

theorem GET_items_in_registry_order_witness:
  "(1::nat) < length [conn_a, conn_b] \<and>
   (\<exists>rep w'. GET net_slow_first [conn_a, conn_b] world0 = (Inr rep, w') \<and>
      item_id (items rep ! 1) = ''b'')"
proof -
  have h: "(1::nat) < length [conn_a, conn_b]" by simp
  show ?thesis
    using h GET_items_in_registry_order [OF h, of net_slow_first world0]
    by (simp add: conn_b_def)
qed

subsection \<open>C2: one item per connector\<close>

text \<open>
  C2. The handler answers with exactly as many items as the registry has connectors,
  whatever the probes do; on the empty registry it answers with the empty list and does
  nothing else.
\<close>

theorem GET_one_item_per_connector:
  "(\<exists>rep w'. GET net connectors w = (Inr rep, w') \<and> length (items rep) = length connectors)
   \<and> GET net [] w = (Inr \<lparr>items = []\<rparr>, w)"
proof
  have "\<exists>rep w'. GET net connectors w = (Inr rep, w') \<and>
          list_all2 (\<lambda>c it. True) connectors (items rep)"
    by (rule GET_all2) simp
  then show "\<exists>rep w'. GET net connectors w = (Inr rep, w') \<and> length (items rep) = length connectors"
    by (auto dest: list_all2_lengthD)
  show "GET net [] w = (Inr \<lparr>items = []\<rparr>, w)"
    by (simp add: GET_def)
qed

subsection \<open>C3: what an item can look like\<close>




subsection \<open>C4: which answers count as healthy\<close>




subsection \<open>C5: a failing status is kept\<close>

text \<open>
  C5. When the answer arrives before the timeout with a status outside 200 to 399, the
  item has \<^verbatim>\<open>ok = false\<close> and keeps the status received. And an item whose
  \<^verbatim>\<open>status_code\<close> or \<^verbatim>\<open>latency_ms\<close> is null comes from a probe that received no
  answer before the timeout.
\<close>

theorem probe_failing_status_preserved:
  "(net (clock w) (healthUrl c) = Responds d st \<and> d < 4000 \<and> \<not> (200 \<le> st \<and> st \<le> 399) \<longrightarrow>
      ok (fst (probe net c w)) = False \<and> status_code (fst (probe net c w)) = Some st) \<and>
   (status_code (fst (probe net c w)) = None \<or> latency_ms (fst (probe net c w)) = None \<longrightarrow>
      \<not> (\<exists>d' st'. net (clock w) (healthUrl c) = Responds d' st' \<and> d' < 4000))"
  by (auto simp: probe_def Date_now_def default_timeout fetchWithTimeout_answered)

text \<open>
  The theorem at a connector that answers 404, and at one that never answers.
\<close>

theorem probe_failing_status_preserved_witness:
  "net_404 (clock world0) (healthUrl conn_a) = Responds 25 404 \<and>
   ok (fst (probe net_404 conn_a world0)) = False \<and>
   status_code (fst (probe net_404 conn_a world0)) = Some 404 \<and>
   status_code (fst (probe net_down conn_a world0)) = None \<and>
   net_down (clock world0) (healthUrl conn_a) = Hangs"
proof -
  have h: "net_404 (clock world0) (healthUrl conn_a) = Responds 25 404"
    by (simp add: net_404_def)
  have k: "net_down (clock world0) (healthUrl conn_a) = Hangs"
    by (simp add: net_down_def health_a)
  have n: "status_code (fst (probe net_down conn_a world0)) = None"
    using k by (simp add: probe_expired)
  show ?thesis
    using h k n probe_failing_status_preserved [of net_404 world0 conn_a 25 404]
      probe_failing_status_preserved [of net_down world0 conn_a]
    by simp
qed

subsection \<open>C6: a failing probe never fails the cycle\<close>

text \<open>
  C6. Whatever the network does, the handler's promise is fulfilled with a report that
  has one item per connector; a connector whose probe cannot succeed (it times out, the
  connection fails, or it answers with a status outside 200 to 299) gets an item with
  \<^verbatim>\<open>ok = false\<close>. The registry is a parameter here: nothing but its loading, which
  happens before the handler runs, is left to fail.
\<close>

theorem GET_never_raises:
  "\<exists>rep w'. GET net connectors w = (Inr rep, w') \<and>
     length (items rep) = length connectors \<and>
     (\<forall>i < length connectors.
        (\<forall>t. case net t (healthUrl (connectors ! i)) of
               Responds d st \<Rightarrow> 4000 \<le> d \<or> st < 200 \<or> 299 < st
             | Fails d \<Rightarrow> True
             | Hangs \<Rightarrow> True) \<longrightarrow>
        ok (items rep ! i) = False)"
proof -
  let ?down = "\<lambda>c. \<forall>t. case net t (healthUrl c) of
               Responds d st \<Rightarrow> 4000 \<le> d \<or> st < 200 \<or> 299 < st
             | Fails d \<Rightarrow> True
             | Hangs \<Rightarrow> True"
  have "\<exists>rep w'. GET net connectors w = (Inr rep, w') \<and>
          list_all2 (\<lambda>c it. ?down c \<longrightarrow> ok it = False) connectors (items rep)"
    by (rule GET_all2) (use probe_not_ok in blast)
  then obtain rep w' where g: "GET net connectors w = (Inr rep, w')"
    and a: "list_all2 (\<lambda>c it. ?down c \<longrightarrow> ok it = False) connectors (items rep)" by blast
  have l: "length (items rep) = length connectors"
    using a by (simp add: list_all2_lengthD)
  have "\<forall>i < length connectors. ?down (connectors ! i) \<longrightarrow> ok (items rep ! i) = False"
    using a by (simp add: list_all2_conv_all_nth)
  with g l show ?thesis by blast
qed

text \<open>
  The theorem at two connectors, the first of which never answers and the second of
  which refuses the connection.
\<close>

theorem GET_never_raises_witness:
  "(0::nat) < length [conn_a, conn_b] \<and>
   (case net_down 0 (healthUrl conn_a) of
      Responds d st \<Rightarrow> 4000 \<le> d \<or> st < 200 \<or> 299 < st | Fails d \<Rightarrow> True | Hangs \<Rightarrow> True) \<and>
   (\<exists>rep w'. GET net_down [conn_a, conn_b] world0 = (Inr rep, w') \<and>
      length (items rep) = 2 \<and> ok (items rep ! 0) = False)"
  using GET_never_raises [of net_down "[conn_a, conn_b]" world0]
  by (simp add: GET_down net_down_def health_a)

subsection \<open>C7: how the probes are scheduled\<close>

text \<open>
  The claim describes a pool of probes that run at the same time. With two connectors
  that never answer, the request to the second is made only after the request to the
  first was aborted and settled; no more than one request is ever in flight, and the
  cycle takes 8000 ms, twice the timeout.
\<close>

theorem GET_two_hanging_connectors:
  "snd (GET net_hang [conn_a, conn_b] world0) =
     world0\<lparr>clock := 8000,
      trace := [TimerSet 4000, FetchCalled ''https://a.example/health'',
               Aborted ''https://a.example/health'',
               FetchSettled ''https://a.example/health'', TimerCleared,
               TimerSet 4000, FetchCalled ''https://b.example/health'',
               Aborted ''https://b.example/health'',
               FetchSettled ''https://b.example/health'', TimerCleared]\<rparr> \<and>
   peak_in_flight 0 (trace (snd (GET net_hang [conn_a, conn_b] world0))) = 1"
  by (simp add: GET_def probe_expired net_hang_def health_a health_b world0_simps)

text \<open>
  C7, amended. During one cycle the probes run one at a time, in registry order: the
  request for a connector is made only after the probe of the connector before it has
  settled, so at most one request is in flight at any moment, and none is left in flight
  at the end. There is no bound \<^verbatim>\<open>max_concurrency\<close> and no pool.
\<close>

theorem GET_probes_one_at_a_time:
  "requests (trace (snd (GET net connectors \<lparr>clock = t, wall = f, trace = []\<rparr>))) = map healthUrl connectors \<and>
   in_flight 0 (trace (snd (GET net connectors \<lparr>clock = t, wall = f, trace = []\<rparr>))) = 0 \<and>
   peak_in_flight 0 (trace (snd (GET net connectors \<lparr>clock = t, wall = f, trace = []\<rparr>))) \<le> 1"
  using GET_loop_trace [of "\<lparr>clock = t, wall = f, trace = []\<rparr>" net connectors "[]"]
  by (simp add: GET_returns)

subsection \<open>C8: the URL that is probed\<close>

text \<open>
  C8. A probe calls \<^verbatim>\<open>fetch\<close> exactly once (with no method given, so a GET), on the
  connector's URL without its trailing slash, followed by \<^verbatim>\<open>/health\<close>.
\<close>

theorem probe_requests_health_url:
  "requests (trace (snd (probe net c w))) = requests (trace w) @ [healthUrl c] \<and>
   (\<forall>b. conn_url c = b @ ''/'' \<longrightarrow> healthUrl c = b @ ''/health'') \<and>
   (conn_url c = [] \<or> last (conn_url c) \<noteq> CHR ''/'' \<longrightarrow> healthUrl c = conn_url c @ ''/health'')"
proof (intro conjI allI impI)
  show "requests (trace (snd (probe net c w))) = requests (trace w) @ [healthUrl c]"
    by (rule probe_requests)
next
  fix b assume "conn_url c = b @ ''/''"
  then show "healthUrl c = b @ ''/health''"
    by (simp add: healthUrl_def strip_trailing_slash_snoc)
next
  assume "conn_url c = [] \<or> last (conn_url c) \<noteq> CHR ''/''"
  then show "healthUrl c = conn_url c @ ''/health''"
    by (auto simp: healthUrl_def strip_trailing_slash_def)
qed

text \<open>
  The theorem at a URL that ends with a slash and at one that does not.
\<close>

theorem probe_requests_health_url_witness:
  "conn_url conn_a = ''https://a.example'' @ ''/'' \<and>
   healthUrl conn_a = ''https://a.example/health'' \<and>
   last (conn_url conn_b) \<noteq> CHR ''/'' \<and>
   healthUrl conn_b = ''https://b.example/health'' \<and>
   requests (trace (snd (probe net_down conn_b world0))) = [''https://b.example/health'']"
proof -
  have a: "conn_url conn_a = ''https://a.example'' @ ''/''"
    by (simp add: conn_a_simps)
  have b: "last (conn_url conn_b) \<noteq> CHR ''/''"
    by (simp add: conn_b_simps)
  show ?thesis
    using a b probe_requests_health_url [of net_down conn_a world0]
      probe_requests_health_url [of net_down conn_b world0]
    by (simp add: conn_b_simps world0_simps)
qed

subsection \<open>C9: one attempt, bounded by a timeout\<close>

text \<open>
  C9. A call of \<^verbatim>\<open>fetchWithTimeout\<close> makes exactly one request, whatever its
  outcome; the timeout is 4000 ms when the caller gives none; and when nothing arrives
  before the timeout the request is aborted at that moment and the call ends with the
  abort error.
\<close>

theorem fetchWithTimeout_single_attempt:
  "requests (trace (snd (fetchWithTimeout net url timeoutMs w))) = requests (trace w) @ [url] \<and>
   fetchWithTimeout net url None w = fetchWithTimeout net url (Some 4000) w \<and>
   ((case net (clock w) url of Responds d st \<Rightarrow> ms \<le> d | Fails d \<Rightarrow> ms \<le> d | Hangs \<Rightarrow> True) \<longrightarrow>
      fetchWithTimeout net url (Some ms) w =
        (Inl AbortError,
         w\<lparr>clock := clock w + int ms,
          trace := trace w @ [TimerSet ms, FetchCalled url, Aborted url, FetchSettled url,
                             TimerCleared]\<rparr>))"
proof (intro conjI impI)
  show "requests (trace (snd (fetchWithTimeout net url timeoutMs w))) = requests (trace w) @ [url]"
    by (simp add: fetchWithTimeout_def fetch_def emit_def wait_def Date_now_def Let_def requests_append
        split: outcome.splits option.splits)
next
  show "fetchWithTimeout net url None w = fetchWithTimeout net url (Some 4000) w"
    by (rule default_timeout)
next
  assume "case net (clock w) url of Responds d st \<Rightarrow> ms \<le> d | Fails d \<Rightarrow> ms \<le> d | Hangs \<Rightarrow> True"
  then show "fetchWithTimeout net url (Some ms) w =
        (Inl AbortError,
         w\<lparr>clock := clock w + int ms,
          trace := trace w @ [TimerSet ms, FetchCalled url, Aborted url, FetchSettled url,
                             TimerCleared]\<rparr>)"
    by (rule fetchWithTimeout_expired)
qed

text \<open>
  The theorem at a connector that never answers, with the default timeout.
\<close>

theorem fetchWithTimeout_single_attempt_witness:
  "net_down (clock world0) ''https://a.example/health'' = Hangs \<and>
   fetchWithTimeout net_down ''https://a.example/health'' None world0 =
     (Inl AbortError,
      world0\<lparr>clock := 4000,
       trace := [TimerSet 4000, FetchCalled ''https://a.example/health'',
                Aborted ''https://a.example/health'',
                FetchSettled ''https://a.example/health'', TimerCleared]\<rparr>)"
proof -
  have h: "net_down (clock world0) ''https://a.example/health'' = Hangs"
    by (simp add: net_down_def)
  show ?thesis
    using h fetchWithTimeout_single_attempt
      [of net_down "''https://a.example/health''" None world0 4000]
    by (simp add: world0_simps)
qed

subsection \<open>C10: status code and latency go together\<close>




end
